theory Spec2Isabelle
  imports Main "HOL-Library.Sublist" "HOL-Library.AList"
begin

section \<open>Python strings\<close>

text \<open>
  A Python \<open>str\<close> is a sequence of Unicode code points; a code point is a natural
  number here, so that the whitespace test of \<open>str.strip\<close> can be written for all of
  Unicode. \<open>str\<close> turns a literal of the source into such a sequence.
\<close>

type_synonym pystr = "nat list"

definition str :: "string \<Rightarrow> pystr" where
  "str s = map of_char s"

text \<open>
  The characters \<open>str.strip()\<close> removes when it is called without an argument:
  the code points Python 3 classifies as whitespace (\<open>str.isspace\<close>).
\<close>

definition isspace :: "nat \<Rightarrow> bool" where
  "isspace c \<longleftrightarrow>
     (9 \<le> c \<and> c \<le> 13) \<or> (28 \<le> c \<and> c \<le> 32) \<or> c = 133 \<or> c = 160 \<or> c = 5760
     \<or> (8192 \<le> c \<and> c \<le> 8202) \<or> c = 8232 \<or> c = 8233 \<or> c = 8239 \<or> c = 8287
     \<or> c = 12288"

text \<open>\<open>s.strip()\<close>: leading and trailing whitespace removed.\<close>

definition strip :: "pystr \<Rightarrow> pystr" where
  "strip s = rev (dropWhile isspace (rev (dropWhile isspace s)))"

text \<open>\<open>sub in s\<close>: \<open>sub\<close> occurs in \<open>s\<close> as a contiguous substring.\<close>

fun py_in :: "pystr \<Rightarrow> pystr \<Rightarrow> bool" where
  "py_in sub [] = (sub = [])"
| "py_in sub (c # cs) = (prefix sub (c # cs) \<or> py_in sub cs)"

text \<open>
  \<open>s.replace(old, new)\<close>: the occurrences of \<open>old\<close> are found from the left and do
  not overlap. \<open>replace_scan\<close> is the scan for a non-empty \<open>old\<close>; with an empty
  \<open>old\<close> Python puts \<open>new\<close> before every character and at the end.
\<close>

fun replace_scan :: "pystr \<Rightarrow> pystr \<Rightarrow> pystr \<Rightarrow> pystr" where
  "replace_scan old new [] = []"
| "replace_scan old new (c # cs) =
     (if prefix old (c # cs) then new @ replace_scan old new (drop (length old - 1) cs)
      else c # replace_scan old new cs)"

definition replace :: "pystr \<Rightarrow> pystr \<Rightarrow> pystr \<Rightarrow> pystr" where
  "replace old new s =
     (if old = [] then new @ concat (map (\<lambda>c. c # new) s) else replace_scan old new s)"

text \<open>
  \<open>s.split(sep)\<close> for a separator of one character (the source splits at
  \<open>"\n"\<close>, code point 10): the result is never empty, and the empty string gives
  one empty line.
\<close>

fun split :: "nat \<Rightarrow> pystr \<Rightarrow> pystr list" where
  "split sep [] = [[]]"
| "split sep (c # cs) =
     (if c = sep then [] # split sep cs
      else (case split sep cs of [] \<Rightarrow> [[c]] | w # ws \<Rightarrow> (c # w) # ws))"

text \<open>\<open>sep.join(xs)\<close>.\<close>

fun join :: "pystr \<Rightarrow> pystr list \<Rightarrow> pystr" where
  "join sep [] = []"
| "join sep [x] = x"
| "join sep (x # y # ys) = x @ sep @ join sep (y # ys)"

section \<open>The resume record and the line classifier\<close>

text \<open>
  \<open>resume_data\<close> of \<open>parse_pdf_resume\<close>: a dictionary with four fixed keys. The
  inner dictionary \<open>personal_info\<close> is an association list in insertion order, as a
  Python \<open>dict\<close> is; assigning to a key replaces its value in place or adds the key
  at the end (\<open>AList.update\<close>).
\<close>

record resume_data =
  personal_info :: "(pystr \<times> pystr) list"
  education :: "pystr list"
  work_experience :: "pystr list"
  skills :: "pystr list"

definition resume_data0 :: resume_data where
  "resume_data0 = \<lparr>personal_info = [], education = [], work_experience = [], skills = []\<rparr>"

text \<open>
  The body of the \<open>for line in lines\<close> loop (source lines 42 to 59). The state is the
  record and the variable \<open>section\<close>, which is \<open>None\<close> or a string.
\<close>

definition classify_line ::
    "resume_data \<times> pystr option \<Rightarrow> pystr \<Rightarrow> resume_data \<times> pystr option" where
  "classify_line st raw =
     (let resume = fst st; section = snd st; line = strip raw in
      if py_in (str ''Name:'') line then
        (resume\<lparr>personal_info :=
            AList.update (str ''name'') (strip (replace (str ''Name:'') [] line))
              (personal_info resume)\<rparr>, section)
      else if py_in (str ''Email:'') line then
        (resume\<lparr>personal_info :=
            AList.update (str ''email'') (strip (replace (str ''Email:'') [] line))
              (personal_info resume)\<rparr>, section)
      else if py_in (str ''Education'') line then (resume, Some (str ''education''))
      else if py_in (str ''Experience'') line then (resume, Some (str ''work_experience''))
      else if py_in (str ''Skills'') line then (resume, Some (str ''skills''))
      else if section = Some (str ''education'') then
        (resume\<lparr>education := education resume @ [line]\<rparr>, section)
      else if section = Some (str ''work_experience'') then
        (resume\<lparr>work_experience := work_experience resume @ [line]\<rparr>, section)
      else if section = Some (str ''skills'') then
        (resume\<lparr>skills := skills resume @ [line]\<rparr>, section)
      else (resume, section))"

text \<open>The loop over the lines, from a given state.\<close>

definition scan_lines ::
    "resume_data \<times> pystr option \<Rightarrow> pystr list \<Rightarrow> resume_data \<times> pystr option" where
  "scan_lines st lines = foldl classify_line st lines"

section \<open>Extraction, the early return and the sinks\<close>

text \<open>
  Exceptions are values. \<open>IOError\<close> is what \<open>except IOError\<close> catches;
  \<open>except Exception\<close> catches both. The string is the exception's text.
\<close>

datatype exn = IOError pystr | Exception pystr

fun exn_text :: "exn \<Rightarrow> pystr" where
  "exn_text (IOError m) = m"
| "exn_text (Exception m) = m"

text \<open>A record of the log, without its time stamp.\<close>

datatype log_record = ERROR pystr | WARNING pystr | INFO pystr

text \<open>
  What a run reads from outside: whether a path is a file (\<open>os.path.isfile\<close>); what
  opening a PDF and calling \<open>extract_text()\<close> on each of its pages gives, a raised
  exception or the pages' texts (\<open>None\<close> for a page with no text); and whether
  opening the output file and dumping into it raises.
\<close>

record env =
  isfile :: "pystr \<Rightarrow> bool"
  pdf_pages :: "pystr \<Rightarrow> exn + pystr option list"
  write_error :: "pystr \<Rightarrow> exn option"

text \<open>
  What a run does to the outside: the log, the calls of \<open>print\<close>, the PDF files it
  opened, and the files whose dump completed, each with the record dumped into it.
  This is also all that outlives a call: the functions below take it and return it.
\<close>

record effects =
  log :: "log_record list"
  stdout :: "pystr list"
  pdf_opened :: "pystr list"
  written :: "(pystr \<times> resume_data) list"

definition effects0 :: effects where
  "effects0 = \<lparr>log = [], stdout = [], pdf_opened = [], written = []\<rparr>"

text \<open>
  Source line 29: the texts of the pages whose text is neither \<open>None\<close> nor empty,
  joined with newlines.
\<close>

definition extract_text :: "pystr option list \<Rightarrow> pystr" where
  "extract_text pages =
     join [10] (List.map_filter
       (\<lambda>p. case p of None \<Rightarrow> None | Some t \<Rightarrow> if t = [] then None else Some t) pages)"

text \<open>
  Source lines 20 to 25 and 34 to 61: the classifier on the extracted text. An empty
  text is answered before the text is split.
\<close>

definition classify_text :: "effects \<Rightarrow> pystr \<Rightarrow> effects \<times> resume_data" where
  "classify_text fx text =
     (if text = [] then
        (fx\<lparr>log := log fx @ [WARNING (str ''No text extracted from the resume.'')]\<rparr>,
         resume_data0)
      else (fx, fst (scan_lines (resume_data0, None) (split 10 text))))"

definition parse_pdf_resume ::
    "env \<Rightarrow> effects \<Rightarrow> pystr \<Rightarrow> effects \<times> (exn + resume_data)" where
  "parse_pdf_resume e fx file_path =
     (let fx1 = fx\<lparr>pdf_opened := pdf_opened fx @ [file_path]\<rparr> in
      case pdf_pages e file_path of
        Inl x \<Rightarrow>
          (fx1\<lparr>log := log fx1 @ [ERROR (str ''Failed to read PDF file: '' @ exn_text x)]\<rparr>,
           Inl x)
      | Inr pages \<Rightarrow>
          (case classify_text fx1 (extract_text pages) of (fx2, resume) \<Rightarrow> (fx2, Inr resume)))"

definition save_to_json ::
    "env \<Rightarrow> effects \<Rightarrow> resume_data \<Rightarrow> pystr \<Rightarrow> effects \<times> exn option" where
  "save_to_json e fx data output_file =
     (case write_error e output_file of
        None \<Rightarrow> (fx\<lparr>written := written fx @ [(output_file, data)]\<rparr>, None)
      | Some (IOError m) \<Rightarrow>
          (fx\<lparr>log := log fx @ [ERROR (str ''Failed to write JSON file: '' @ m)]\<rparr>,
           Some (IOError m))
      | Some (Exception m) \<Rightarrow> (fx, Some (Exception m)))"

text \<open>\<open>print_resume\<close>: one entry of \<open>stdout\<close> for each call of \<open>print\<close>.\<close>

definition print_resume :: "effects \<Rightarrow> resume_data \<Rightarrow> effects" where
  "print_resume fx data =
     fx\<lparr>stdout := stdout fx
        @ [10 # str ''Personal Information:'']
        @ (case map_of (personal_info data) (str ''name'') of
             None \<Rightarrow> [] | Some v \<Rightarrow> [str ''Name: '' @ v])
        @ (case map_of (personal_info data) (str ''email'') of
             None \<Rightarrow> [] | Some v \<Rightarrow> [str ''Email: '' @ v])
        @ [10 # str ''Education:'']
        @ map (\<lambda>entry. str ''- '' @ entry) (education data)
        @ [10 # str ''Work Experience:'']
        @ map (\<lambda>entry. str ''- '' @ entry) (work_experience data)
        @ [10 # str ''Skills:'']
        @ map (\<lambda>entry. str ''- '' @ entry) (skills data)\<rparr>"

text \<open>
  \<open>main\<close> after the arguments are parsed. The second component is the exception
  that leaves \<open>main\<close> unhandled, if any.
\<close>

definition main :: "env \<Rightarrow> effects \<Rightarrow> pystr \<Rightarrow> pystr \<Rightarrow> effects \<times> exn option" where
  "main e fx file_path output_file =
     (if \<not> isfile e file_path then
        (fx\<lparr>log := log fx @ [ERROR (str ''The provided file path does not exist.'')]\<rparr>,
         None)
      else
        (case parse_pdf_resume e fx file_path of
           (fx1, Inl x) \<Rightarrow> (fx1, Some x)
         | (fx1, Inr resume) \<Rightarrow>
             (case save_to_json e (print_resume fx1 resume) resume output_file of
                (fx2, Some x) \<Rightarrow> (fx2, Some x)
              | (fx2, None) \<Rightarrow>
                  (fx2\<lparr>log := log fx2 @ [INFO (str ''Resume data saved to '' @ output_file)]\<rparr>,
                   None))))"

text \<open>
  An environment for examples: \<open>cv.pdf\<close> is the only file, a PDF of two pages with
  no text, and every write succeeds.
\<close>

definition env_example :: env where
  "env_example =
     \<lparr>isfile = (\<lambda>p. p = str ''cv.pdf''),
      pdf_pages = (\<lambda>p. if p = str ''cv.pdf'' then Inr [None, Some []]
                        else Inl (Exception (str ''no file''))),
      write_error = (\<lambda>p. None)\<rparr>"

section \<open>Substrings and whitespace\<close>

lemma py_in_sublist: "py_in sub s \<longleftrightarrow> sublist sub s"
  by (induction s) (auto simp: sublist_Cons_right)

lemma strip_decompose:
  "\<exists>a b. s = a @ strip s @ b \<and> (\<forall>c\<in>set a. isspace c) \<and> (\<forall>c\<in>set b. isspace c)"
proof -
  let ?d = "dropWhile isspace s"
  have "s = takeWhile isspace s @ ?d" by simp
  moreover have "?d = strip s @ rev (takeWhile isspace (rev ?d))"
  proof -
    have "strip s @ rev (takeWhile isspace (rev ?d))
        = rev (takeWhile isspace (rev ?d) @ dropWhile isspace (rev ?d))"
      by (simp only: strip_def rev_append)
    also have "\<dots> = rev (rev ?d)"
      by (simp only: takeWhile_dropWhile_id)
    finally show ?thesis by simp
  qed
  moreover have "\<forall>c\<in>set (takeWhile isspace s). isspace c"
    by (auto dest: set_takeWhileD)
  moreover have "\<forall>c\<in>set (rev (takeWhile isspace (rev ?d))). isspace c"
    by (auto dest: set_takeWhileD)
  ultimately show ?thesis by metis
qed

lemma prefix_append_space:
  assumes "\<forall>c\<in>set old. \<not> isspace c" and "\<forall>c\<in>set b. isspace c"
  shows "prefix old (x @ b) \<longleftrightarrow> prefix old x"
proof
  assume "prefix old (x @ b)"
  then have "prefix old x \<or> (\<exists>us. prefix us b \<and> old = x @ us)"
    by (auto simp: prefix_append)
  then show "prefix old x"
  proof
    assume "prefix old x" then show ?thesis .
  next
    assume "\<exists>us. prefix us b \<and> old = x @ us"
    then obtain us where us: "prefix us b" "old = x @ us" by blast
    show ?thesis
    proof (cases us)
      case Nil with us show ?thesis by simp
    next
      case (Cons u us')
      with us have "u \<in> set old" "u \<in> set b"
        by (auto dest: set_mono_prefix)
      with assms show ?thesis by blast
    qed
  qed
next
  assume "prefix old x" then show "prefix old (x @ b)" by (rule prefix_prefix)
qed

lemma py_in_space_left:
  assumes "old \<noteq> []" "\<forall>c\<in>set old. \<not> isspace c" "\<forall>c\<in>set a. isspace c"
  shows "py_in old (a @ s) \<longleftrightarrow> py_in old s"
  using assms(3)
proof (induction a)
  case Nil then show ?case by simp
next
  case (Cons c a)
  have "\<not> prefix old (c # a @ s)"
  proof
    assume "prefix old (c # a @ s)"
    with assms(1) have "hd old = c" by (cases old) auto
    with assms(1,2) Cons.prems show False by (cases old) auto
  qed
  with Cons show ?case by simp
qed

lemma py_in_space_right:
  assumes "old \<noteq> []" "\<forall>c\<in>set old. \<not> isspace c" "\<forall>c\<in>set b. isspace c"
  shows "py_in old (s @ b) \<longleftrightarrow> py_in old s"
proof (induction s)
  case Nil
  from py_in_space_left [OF assms, of "[]"] assms(1) show ?case by simp
next
  case (Cons c s)
  from prefix_append_space [OF assms(2,3), of "c # s"] Cons show ?case by simp
qed

lemma py_in_strip:
  assumes "old \<noteq> []" "\<forall>c\<in>set old. \<not> isspace c"
  shows "py_in old (strip s) \<longleftrightarrow> py_in old s"
proof -
  obtain a b where s: "s = a @ strip s @ b" and a: "\<forall>c\<in>set a. isspace c"
    and b: "\<forall>c\<in>set b. isspace c"
    using strip_decompose by blast
  have "py_in old s \<longleftrightarrow> py_in old (a @ strip s @ b)" using s by simp
  also have "\<dots> \<longleftrightarrow> py_in old (strip s @ b)" by (rule py_in_space_left [OF assms a])
  also have "\<dots> \<longleftrightarrow> py_in old (strip s)" by (rule py_in_space_right [OF assms b])
  finally show ?thesis by simp
qed

lemma replace_scan_space_left:
  assumes "old \<noteq> []" "\<forall>c\<in>set old. \<not> isspace c" "\<forall>c\<in>set a. isspace c"
  shows "replace_scan old new (a @ s) = a @ replace_scan old new s"
  using assms(3)
proof (induction a)
  case Nil then show ?case by simp
next
  case (Cons c a)
  have "\<not> prefix old (c # a @ s)"
  proof
    assume "prefix old (c # a @ s)"
    with assms(1) have "hd old = c" by (cases old) auto
    with assms(1,2) Cons.prems show False by (cases old) auto
  qed
  with Cons show ?case by simp
qed

lemma replace_scan_space_right:
  assumes "old \<noteq> []" "\<forall>c\<in>set old. \<not> isspace c" "\<forall>c\<in>set b. isspace c"
  shows "replace_scan old new (s @ b) = replace_scan old new s @ b"
proof (induction s rule: length_induct)
  case (1 s)
  show ?case
  proof (cases s)
    case Nil
    from replace_scan_space_left [OF assms, of new "[]"] show ?thesis
      using Nil by simp
  next
    case (Cons c cs)
    have pre: "prefix old ((c # cs) @ b) \<longleftrightarrow> prefix old (c # cs)"
      by (rule prefix_append_space [OF assms(2,3)])
    show ?thesis
    proof (cases "prefix old (c # cs)")
      case True
      then have len: "length old - 1 \<le> length cs"
        by (auto dest: prefix_length_le)
      have "length (drop (length old - 1) cs) < length s"
        using Cons by simp
      with 1 have "replace_scan old new (drop (length old - 1) cs @ b)
          = replace_scan old new (drop (length old - 1) cs) @ b"
        by blast
      with True pre len show ?thesis using Cons by simp
    next
      case False
      with pre 1 show ?thesis using Cons by simp
    qed
  qed
qed

lemma dropWhile_spaces:
  "\<forall>c\<in>set a. isspace c \<Longrightarrow> dropWhile isspace (a @ t) = dropWhile isspace t"
  by (induction a) auto

lemma strip_spaces:
  assumes a: "\<forall>c\<in>set a. isspace c" and b: "\<forall>c\<in>set b. isspace c"
  shows "strip (a @ s @ b) = strip s"
proof (cases "\<forall>c\<in>set s. isspace c")
  case True
  with a b have "dropWhile isspace (a @ s @ b) = []" "dropWhile isspace s = []"
    by (auto simp: dropWhile_eq_Nil_conv)
  then show ?thesis by (simp only: strip_def)
next
  case False
  then obtain c where "c \<in> set s" "\<not> isspace c" by blast
  then have "dropWhile isspace (s @ b) = dropWhile isspace s @ b"
    by (rule dropWhile_append1)
  with a have "dropWhile isspace (a @ s @ b) = dropWhile isspace s @ b"
    by (simp add: dropWhile_spaces)
  moreover have "dropWhile isspace (rev b @ t) = dropWhile isspace t" for t
    using b by (simp add: dropWhile_spaces)
  ultimately show ?thesis by (simp add: strip_def)
qed

lemma strip_replace_strip:
  assumes "old \<noteq> []" "\<forall>c\<in>set old. \<not> isspace c"
  shows "strip (replace old new (strip s)) = strip (replace old new s)"
proof -
  obtain a b where s: "s = a @ strip s @ b" and a: "\<forall>c\<in>set a. isspace c"
    and b: "\<forall>c\<in>set b. isspace c"
    using strip_decompose by blast
  have "replace_scan old new s = replace_scan old new (a @ strip s @ b)"
    using s by simp
  also have "\<dots> = a @ replace_scan old new (strip s @ b)"
    by (rule replace_scan_space_left [OF assms a])
  also have "\<dots> = a @ replace_scan old new (strip s) @ b"
    by (simp add: replace_scan_space_right [OF assms b])
  finally have "strip (replace_scan old new s) = strip (replace_scan old new (strip s))"
    by (simp add: strip_spaces [OF a b])
  with assms(1) show ?thesis by (simp add: replace_def)
qed

lemma label_chars:
  "str ''Name:'' \<noteq> []" "\<forall>c\<in>set (str ''Name:''). \<not> isspace c"
  "str ''Email:'' \<noteq> []" "\<forall>c\<in>set (str ''Email:''). \<not> isspace c"
  "str ''Education'' \<noteq> []" "\<forall>c\<in>set (str ''Education''). \<not> isspace c"
  "str ''Experience'' \<noteq> []" "\<forall>c\<in>set (str ''Experience''). \<not> isspace c"
  "str ''Skills'' \<noteq> []" "\<forall>c\<in>set (str ''Skills''). \<not> isspace c"
  by (simp_all add: str_def isspace_def)

section \<open>The classifier on one line\<close>

lemma label_in_strip:
  "py_in (str ''Name:'') (strip raw) = py_in (str ''Name:'') raw"
  "py_in (str ''Email:'') (strip raw) = py_in (str ''Email:'') raw"
  "py_in (str ''Education'') (strip raw) = py_in (str ''Education'') raw"
  "py_in (str ''Experience'') (strip raw) = py_in (str ''Experience'') raw"
  "py_in (str ''Skills'') (strip raw) = py_in (str ''Skills'') raw"
  by (rule py_in_strip; rule label_chars)+

lemma keys_differ: "str ''name'' \<noteq> str ''email''"
  by (simp add: str_def)

lemma classify_line_name:
  "py_in (str ''Name:'') raw \<Longrightarrow>
   classify_line (rd, sec) raw =
     (rd\<lparr>personal_info :=
         AList.update (str ''name'') (strip (replace (str ''Name:'') [] (strip raw)))
           (personal_info rd)\<rparr>, sec)"
  by (simp add: classify_line_def label_in_strip)

lemma classify_line_email:
  "\<not> py_in (str ''Name:'') raw \<Longrightarrow> py_in (str ''Email:'') raw \<Longrightarrow>
   classify_line (rd, sec) raw =
     (rd\<lparr>personal_info :=
         AList.update (str ''email'') (strip (replace (str ''Email:'') [] (strip raw)))
           (personal_info rd)\<rparr>, sec)"
  by (simp add: classify_line_def label_in_strip)

lemma name_value:
  "py_in (str ''Name:'') raw \<Longrightarrow>
   map_of (personal_info (fst (classify_line (rd, sec) raw))) (str ''name'')
     = Some (strip (replace (str ''Name:'') [] raw))"
  by (simp add: classify_line_name update_conv' strip_replace_strip [OF label_chars(1,2)])

lemma email_value:
  "\<not> py_in (str ''Name:'') raw \<Longrightarrow> py_in (str ''Email:'') raw \<Longrightarrow>
   map_of (personal_info (fst (classify_line (rd, sec) raw))) (str ''email'')
     = Some (strip (replace (str ''Email:'') [] raw))"
  by (simp add: classify_line_email update_conv' strip_replace_strip [OF label_chars(3,4)])

text \<open>
  Claim C1. For every input line that contains \<open>"Name:"\<close>, the classifier sets
  \<open>personal_info.name\<close> to that line with every \<open>"Name:"\<close> removed, trimmed of
  surrounding whitespace; for every line that does not contain \<open>"Name:"\<close> but contains
  \<open>"Email:"\<close>, it sets \<open>personal_info.email\<close> in the same way. The line is the
  line as it is read: the source tests and rewrites the trimmed line, which gives the same
  answer and the same value (\<open>label_in_strip\<close>, \<open>strip_replace_strip\<close>).
\<close>

theorem name_email_fields:
  "(py_in (str ''Name:'') raw \<longrightarrow>
      map_of (personal_info (fst (classify_line (rd, sec) raw))) (str ''name'')
        = Some (strip (replace (str ''Name:'') [] raw)))
   \<and> (\<not> py_in (str ''Name:'') raw \<and> py_in (str ''Email:'') raw \<longrightarrow>
      map_of (personal_info (fst (classify_line (rd, sec) raw))) (str ''email'')
        = Some (strip (replace (str ''Email:'') [] raw)))"
  by (simp add: name_value email_value)

theorem name_email_fields_witness:
  "py_in (str ''Name:'') (str ''  Name: Jane Doe '')
   \<and> map_of (personal_info (fst (classify_line (resume_data0, None) (str ''  Name: Jane Doe ''))))
         (str ''name'') = Some (str ''Jane Doe'')
   \<and> \<not> py_in (str ''Name:'') (str ''Email: jane@x.com'')
   \<and> py_in (str ''Email:'') (str ''Email: jane@x.com'')
   \<and> map_of (personal_info (fst (classify_line (resume_data0, None) (str ''Email: jane@x.com''))))
         (str ''email'') = Some (str ''jane@x.com'')"
  using name_email_fields [of "str ''  Name: Jane Doe ''" resume_data0 None]
    name_email_fields [of "str ''Email: jane@x.com''" resume_data0 None]
  by (simp add: str_def strip_def isspace_def replace_def)

lemma classify_line_education:
  "\<not> py_in (str ''Name:'') raw \<Longrightarrow> \<not> py_in (str ''Email:'') raw \<Longrightarrow>
   py_in (str ''Education'') raw \<Longrightarrow>
   classify_line (rd, sec) raw = (rd, Some (str ''education''))"
  by (simp add: classify_line_def label_in_strip)

lemma classify_line_experience:
  "\<not> py_in (str ''Name:'') raw \<Longrightarrow> \<not> py_in (str ''Email:'') raw \<Longrightarrow>
   \<not> py_in (str ''Education'') raw \<Longrightarrow> py_in (str ''Experience'') raw \<Longrightarrow>
   classify_line (rd, sec) raw = (rd, Some (str ''work_experience''))"
  by (simp add: classify_line_def label_in_strip)

lemma classify_line_skills:
  "\<not> py_in (str ''Name:'') raw \<Longrightarrow> \<not> py_in (str ''Email:'') raw \<Longrightarrow>
   \<not> py_in (str ''Education'') raw \<Longrightarrow> \<not> py_in (str ''Experience'') raw \<Longrightarrow>
   py_in (str ''Skills'') raw \<Longrightarrow>
   classify_line (rd, sec) raw = (rd, Some (str ''skills''))"
  by (simp add: classify_line_def label_in_strip)

lemma section_names_differ:
  "str ''education'' \<noteq> str ''work_experience''" "str ''education'' \<noteq> str ''skills''"
  "str ''work_experience'' \<noteq> str ''skills''" "str ''work_experience'' \<noteq> str ''education''"
  "str ''skills'' \<noteq> str ''education''" "str ''skills'' \<noteq> str ''work_experience''"
  by (simp_all add: str_def)

lemma classify_line_content:
  assumes "\<not> py_in (str ''Name:'') raw" "\<not> py_in (str ''Email:'') raw"
    "\<not> py_in (str ''Education'') raw" "\<not> py_in (str ''Experience'') raw"
    "\<not> py_in (str ''Skills'') raw"
  shows "classify_line (rd, sec) raw =
     (if sec = Some (str ''education'') then (rd\<lparr>education := education rd @ [strip raw]\<rparr>, sec)
      else if sec = Some (str ''work_experience'') then
        (rd\<lparr>work_experience := work_experience rd @ [strip raw]\<rparr>, sec)
      else if sec = Some (str ''skills'') then (rd\<lparr>skills := skills rd @ [strip raw]\<rparr>, sec)
      else (rd, sec))"
  using assms by (simp add: classify_line_def label_in_strip)

text \<open>
  Claim C2, as amended. The classifier applies exactly the first rule that matches, in the
  order \<open>"Name:"\<close>, \<open>"Email:"\<close>, \<open>"Education"\<close>, \<open>"Experience"\<close>,
  \<open>"Skills"\<close>, and no later one. A line containing both \<open>"Education"\<close> and
  \<open>"Skills"\<close> sets the section to education when it contains neither \<open>"Name:"\<close>
  nor \<open>"Email:"\<close>, and otherwise leaves the section as it was; it never sets the
  section to skills.
\<close>

theorem first_match_priority:
  "(py_in (str ''Name:'') raw \<longrightarrow>
      classify_line (rd, sec) raw =
        (rd\<lparr>personal_info :=
            AList.update (str ''name'') (strip (replace (str ''Name:'') [] (strip raw)))
              (personal_info rd)\<rparr>, sec))
   \<and> (\<not> py_in (str ''Name:'') raw \<and> py_in (str ''Email:'') raw \<longrightarrow>
      classify_line (rd, sec) raw =
        (rd\<lparr>personal_info :=
            AList.update (str ''email'') (strip (replace (str ''Email:'') [] (strip raw)))
              (personal_info rd)\<rparr>, sec))
   \<and> (\<not> py_in (str ''Name:'') raw \<and> \<not> py_in (str ''Email:'') raw
        \<and> py_in (str ''Education'') raw \<longrightarrow>
      classify_line (rd, sec) raw = (rd, Some (str ''education'')))
   \<and> (\<not> py_in (str ''Name:'') raw \<and> \<not> py_in (str ''Email:'') raw
        \<and> \<not> py_in (str ''Education'') raw \<and> py_in (str ''Experience'') raw \<longrightarrow>
      classify_line (rd, sec) raw = (rd, Some (str ''work_experience'')))
   \<and> (\<not> py_in (str ''Name:'') raw \<and> \<not> py_in (str ''Email:'') raw
        \<and> \<not> py_in (str ''Education'') raw \<and> \<not> py_in (str ''Experience'') raw
        \<and> py_in (str ''Skills'') raw \<longrightarrow>
      classify_line (rd, sec) raw = (rd, Some (str ''skills'')))
   \<and> (py_in (str ''Education'') raw \<and> py_in (str ''Skills'') raw \<longrightarrow>
      snd (classify_line (rd, sec) raw) = Some (str ''education'')
      \<or> snd (classify_line (rd, sec) raw) = sec
         \<and> (py_in (str ''Name:'') raw \<or> py_in (str ''Email:'') raw))"
  by (cases "py_in (str ''Name:'') raw"; cases "py_in (str ''Email:'') raw")
    (simp_all add: classify_line_name classify_line_email classify_line_education
      classify_line_experience classify_line_skills)

text \<open>
  The claim as it was stated says that every line containing both \<open>"Education"\<close> and
  \<open>"Skills"\<close> sets the section to education. The line
  \<open>"Name: Education Skills"\<close> contains both, and read before any section header it
  leaves the section \<open>None\<close>: the rule for \<open>"Name:"\<close> comes first.
\<close>

theorem education_and_skills_counterexample:
  "py_in (str ''Education'') (str ''Name: Education Skills'')
   \<and> py_in (str ''Skills'') (str ''Name: Education Skills'')
   \<and> snd (classify_line (resume_data0, None) (str ''Name: Education Skills''))
       \<noteq> Some (str ''education'')"
  by (simp add: classify_line_def str_def strip_def isspace_def)

theorem first_match_priority_witness:
  "py_in (str ''Education'') (str ''Education and Skills'')
   \<and> py_in (str ''Skills'') (str ''Education and Skills'')
   \<and> \<not> py_in (str ''Name:'') (str ''Education and Skills'')
   \<and> \<not> py_in (str ''Email:'') (str ''Education and Skills'')
   \<and> classify_line (resume_data0, Some (str ''skills'')) (str ''Education and Skills'')
       = (resume_data0, Some (str ''education''))
   \<and> py_in (str ''Name:'') (str ''Name: Email: Skills'')
   \<and> classify_line (resume_data0, None) (str ''Name: Email: Skills'')
       = (resume_data0\<lparr>personal_info := [(str ''name'', str ''Email: Skills'')]\<rparr>, None)"
  using first_match_priority [of "str ''Education and Skills''" resume_data0 "Some (str ''skills'')"]
    first_match_priority [of "str ''Name: Email: Skills''" resume_data0 None]
  by (simp add: str_def strip_def isspace_def replace_def resume_data0_def)

text \<open>
  Claim C8. A line that is empty after trimming contains none of the five labels, and
  while the section is education, work_experience or skills the classifier appends the
  empty string to that section's list and changes nothing else.
\<close>

theorem blank_line_appended:
  "strip raw = [] \<Longrightarrow>
     (sec = Some (str ''education'') \<longrightarrow>
        classify_line (rd, sec) raw = (rd\<lparr>education := education rd @ [[]]\<rparr>, sec))
   \<and> (sec = Some (str ''work_experience'') \<longrightarrow>
        classify_line (rd, sec) raw = (rd\<lparr>work_experience := work_experience rd @ [[]]\<rparr>, sec))
   \<and> (sec = Some (str ''skills'') \<longrightarrow>
        classify_line (rd, sec) raw = (rd\<lparr>skills := skills rd @ [[]]\<rparr>, sec))
   \<and> \<not> py_in (str ''Name:'') raw \<and> \<not> py_in (str ''Email:'') raw
   \<and> \<not> py_in (str ''Education'') raw \<and> \<not> py_in (str ''Experience'') raw
   \<and> \<not> py_in (str ''Skills'') raw"
proof -
  assume blank: "strip raw = []"
  have none: "\<not> py_in (str l) raw" if "py_in (str l) (strip raw) = py_in (str l) raw"
    and "str l \<noteq> []" for l
    using that blank by simp
  have labels: "\<not> py_in (str ''Name:'') raw" "\<not> py_in (str ''Email:'') raw"
    "\<not> py_in (str ''Education'') raw" "\<not> py_in (str ''Experience'') raw"
    "\<not> py_in (str ''Skills'') raw"
    by (rule none, rule label_in_strip, rule label_chars)+
  from blank labels show ?thesis
    by (simp add: classify_line_content [OF labels] section_names_differ)
qed

theorem blank_line_appended_witness:
  "strip (str ''   '') = []
   \<and> classify_line (resume_data0, Some (str ''education'')) (str ''   '')
        = (resume_data0\<lparr>education := [[]]\<rparr>, Some (str ''education''))
   \<and> classify_line (resume_data0, Some (str ''work_experience'')) []
        = (resume_data0\<lparr>work_experience := [[]]\<rparr>, Some (str ''work_experience''))
   \<and> classify_line (resume_data0\<lparr>skills := [str ''Python'']\<rparr>, Some (str ''skills'')) [9, 32]
        = (resume_data0\<lparr>skills := [str ''Python'', []]\<rparr>, Some (str ''skills''))"
proof -
  have b: "strip (str ''   '') = []" "strip [] = []" "strip [9, 32] = []"
    by (simp_all add: str_def strip_def isspace_def)
  from blank_line_appended [OF b(1), of "Some (str ''education'')" resume_data0]
    blank_line_appended [OF b(2), of "Some (str ''work_experience'')" resume_data0]
    blank_line_appended [OF b(3), of "Some (str ''skills'')" "resume_data0\<lparr>skills := [str ''Python'']\<rparr>"]
    b(1)
  show ?thesis by (simp add: resume_data0_def)
qed

text \<open>
  Claim C10. A line containing \<open>"Name:"\<close> or \<open>"Email:"\<close> leaves the section and
  the three lists as they were: the record after the line differs from the record before
  it in \<open>personal_info\<close> only.
\<close>

theorem name_email_line_frame:
  "py_in (str ''Name:'') raw \<or> py_in (str ''Email:'') raw \<Longrightarrow>
     snd (classify_line (rd, sec) raw) = sec
   \<and> education (fst (classify_line (rd, sec) raw)) = education rd
   \<and> work_experience (fst (classify_line (rd, sec) raw)) = work_experience rd
   \<and> skills (fst (classify_line (rd, sec) raw)) = skills rd
   \<and> (\<exists>info. classify_line (rd, sec) raw = (rd\<lparr>personal_info := info\<rparr>, sec))"
  by (cases "py_in (str ''Name:'') raw")
    (auto simp: classify_line_name classify_line_email)

theorem name_email_line_frame_witness:
  "py_in (str ''Name:'') (str ''Name: Ann'')
   \<and> snd (classify_line (resume_data0\<lparr>education := [str ''BS'']\<rparr>, Some (str ''education''))
        (str ''Name: Ann'')) = Some (str ''education'')
   \<and> education (fst (classify_line (resume_data0\<lparr>education := [str ''BS'']\<rparr>,
        Some (str ''education'')) (str ''Name: Ann''))) = [str ''BS'']
   \<and> work_experience (fst (classify_line (resume_data0\<lparr>education := [str ''BS'']\<rparr>,
        Some (str ''education'')) (str ''Name: Ann''))) = []
   \<and> skills (fst (classify_line (resume_data0\<lparr>education := [str ''BS'']\<rparr>,
        Some (str ''education'')) (str ''Name: Ann''))) = []"
proof -
  have h: "py_in (str ''Name:'') (str ''Name: Ann'') \<or> py_in (str ''Email:'') (str ''Name: Ann'')"
    by (simp add: str_def)
  from name_email_line_frame [OF h, of "resume_data0\<lparr>education := [str ''BS'']\<rparr>"
      "Some (str ''education'')"] h
  show ?thesis by (simp add: resume_data0_def str_def)
qed

section \<open>The scan of the lines\<close>

lemma scan_lines_Nil: "scan_lines st [] = st"
  by (simp add: scan_lines_def)

lemma scan_lines_Cons: "scan_lines st (l # ls) = scan_lines (classify_line st l) ls"
  by (simp add: scan_lines_def)

lemma scan_lines_append: "scan_lines st (xs @ ys) = scan_lines (scan_lines st xs) ys"
  by (simp add: scan_lines_def)

lemma name_kept:
  assumes "\<not> py_in (str ''Name:'') raw"
  shows "map_of (personal_info (fst (classify_line st raw))) (str ''name'')
       = map_of (personal_info (fst st)) (str ''name'')"
proof (cases "py_in (str ''Email:'') raw")
  case True
  with assms classify_line_email [of raw "fst st" "snd st"] show ?thesis
    by (simp add: update_conv' keys_differ)
next
  case False
  with assms show ?thesis
    by (cases st) (simp add: classify_line_def label_in_strip Let_def)
qed

lemma email_kept:
  assumes "py_in (str ''Name:'') raw \<or> \<not> py_in (str ''Email:'') raw"
  shows "map_of (personal_info (fst (classify_line st raw))) (str ''email'')
       = map_of (personal_info (fst st)) (str ''email'')"
proof (cases "py_in (str ''Name:'') raw")
  case True
  with classify_line_name [of raw "fst st" "snd st"] show ?thesis
    using keys_differ by (simp add: update_conv')
next
  case False
  with assms show ?thesis
    by (cases st) (simp add: classify_line_def label_in_strip Let_def)
qed

lemma scan_name_kept:
  "\<forall>y\<in>set ys. \<not> py_in (str ''Name:'') y \<Longrightarrow>
   map_of (personal_info (fst (scan_lines st ys))) (str ''name'')
     = map_of (personal_info (fst st)) (str ''name'')"
  by (induction ys arbitrary: st) (simp_all add: scan_lines_Nil scan_lines_Cons name_kept)

lemma scan_email_kept:
  "\<forall>y\<in>set ys. py_in (str ''Name:'') y \<or> \<not> py_in (str ''Email:'') y \<Longrightarrow>
   map_of (personal_info (fst (scan_lines st ys))) (str ''email'')
     = map_of (personal_info (fst st)) (str ''email'')"
  by (induction ys arbitrary: st) (simp_all add: scan_lines_Nil scan_lines_Cons email_kept)

lemma scan_last_name:
  assumes "py_in (str ''Name:'') l" "\<forall>y\<in>set ys. \<not> py_in (str ''Name:'') y"
  shows "map_of (personal_info (fst (scan_lines st (xs @ l # ys)))) (str ''name'')
       = Some (strip (replace (str ''Name:'') [] l))"
proof -
  let ?mid = "scan_lines st xs"
  have "map_of (personal_info (fst (scan_lines st (xs @ l # ys)))) (str ''name'')
      = map_of (personal_info (fst (classify_line ?mid l))) (str ''name'')"
    by (simp add: scan_lines_append scan_lines_Cons scan_name_kept [OF assms(2)])
  also have "\<dots> = Some (strip (replace (str ''Name:'') [] l))"
    using name_value [OF assms(1), of "fst ?mid" "snd ?mid"] by simp
  finally show ?thesis .
qed

lemma scan_last_email:
  assumes "\<not> py_in (str ''Name:'') l" "py_in (str ''Email:'') l"
    "\<forall>y\<in>set ys. py_in (str ''Name:'') y \<or> \<not> py_in (str ''Email:'') y"
  shows "map_of (personal_info (fst (scan_lines st (xs @ l # ys)))) (str ''email'')
       = Some (strip (replace (str ''Email:'') [] l))"
proof -
  let ?mid = "scan_lines st xs"
  have "map_of (personal_info (fst (scan_lines st (xs @ l # ys)))) (str ''email'')
      = map_of (personal_info (fst (classify_line ?mid l))) (str ''email'')"
    by (simp add: scan_lines_append scan_lines_Cons scan_email_kept [OF assms(3)])
  also have "\<dots> = Some (strip (replace (str ''Email:'') [] l))"
    using email_value [OF assms(1,2), of "fst ?mid" "snd ?mid"] by simp
  finally show ?thesis .
qed

text \<open>
  Claim C9, as amended. When several lines of the text contain \<open>"Name:"\<close>, each of
  them overwrites the name, and the name in the final record is the one of the last such
  line. When several lines contain \<open>"Email:"\<close> and not \<open>"Name:"\<close>, each of them
  overwrites the email, and the email in the final record is the one of the last line that
  contains \<open>"Email:"\<close> and does not contain \<open>"Name:"\<close>. The lines are those of
  \<open>text.split("\n")\<close>.
\<close>

theorem last_label_line_wins:
  assumes "split 10 text = xs @ l # ys"
  shows
    "(py_in (str ''Name:'') l \<and> (\<forall>y\<in>set ys. \<not> py_in (str ''Name:'') y) \<longrightarrow>
        map_of (personal_info (snd (classify_text fx text))) (str ''name'')
          = Some (strip (replace (str ''Name:'') [] l)))
     \<and> (\<not> py_in (str ''Name:'') l \<and> py_in (str ''Email:'') l
          \<and> (\<forall>y\<in>set ys. py_in (str ''Name:'') y \<or> \<not> py_in (str ''Email:'') y) \<longrightarrow>
        map_of (personal_info (snd (classify_text fx text))) (str ''email'')
          = Some (strip (replace (str ''Email:'') [] l)))"
proof (cases "text = []")
  case True
  with assms have "xs @ l # ys = [[]]" by simp
  then have "l = []" by (cases xs) auto
  then show ?thesis by (simp add: str_def)
next
  case False
  with assms show ?thesis
    by (simp add: classify_text_def scan_last_name scan_last_email)
qed

text \<open>
  The claim as it was stated takes the email from the last line containing
  \<open>"Email:"\<close>. In the text \<open>"Email: a\nName: Email: b"\<close> that line is the second
  one; it also contains \<open>"Name:"\<close>, so the rule for \<open>"Name:"\<close> handles it and
  the email stays \<open>"a"\<close>, the value of the first line.
\<close>

theorem last_email_line_counterexample:
  "split 10 (str ''Email: a'' @ [10] @ str ''Name: Email: b'')
     = [str ''Email: a'', str ''Name: Email: b'']
   \<and> py_in (str ''Email:'') (str ''Name: Email: b'')
   \<and> strip (replace (str ''Email:'') [] (str ''Name: Email: b'')) = str ''Name:  b''
   \<and> map_of (personal_info (snd (classify_text effects0
          (str ''Email: a'' @ [10] @ str ''Name: Email: b'')))) (str ''email'')
        = Some (str ''a'')
   \<and> str ''a'' \<noteq> str ''Name:  b''"
proof -
  have s: "split 10 (str ''Email: a'' @ [10] @ str ''Name: Email: b'')
     = [str ''Email: a'', str ''Name: Email: b'']"
    by (simp add: str_def)
  have l1: "classify_line (resume_data0, None) (str ''Email: a'')
      = (resume_data0\<lparr>personal_info := [(str ''email'', str ''a'')]\<rparr>, None)"
    by (simp add: classify_line_def str_def strip_def isspace_def replace_def resume_data0_def)
  have l2: "classify_line (resume_data0\<lparr>personal_info := [(str ''email'', str ''a'')]\<rparr>, None)
        (str ''Name: Email: b'')
      = (resume_data0\<lparr>personal_info :=
            [(str ''email'', str ''a''), (str ''name'', str ''Email: b'')]\<rparr>, None)"
    by (simp add: classify_line_def str_def strip_def isspace_def replace_def resume_data0_def)
  have n: "str ''Email: a'' @ [10] @ str ''Name: Email: b'' \<noteq> []"
    by (simp add: str_def)
  have r: "snd (classify_text effects0 (str ''Email: a'' @ [10] @ str ''Name: Email: b''))
      = resume_data0\<lparr>personal_info :=
            [(str ''email'', str ''a''), (str ''name'', str ''Email: b'')]\<rparr>"
  proof -
    have "fst (scan_lines (resume_data0, None)
          (split 10 (str ''Email: a'' @ [10] @ str ''Name: Email: b'')))
        = resume_data0\<lparr>personal_info :=
            [(str ''email'', str ''a''), (str ''name'', str ''Email: b'')]\<rparr>"
      by (simp only: s scan_lines_def foldl.simps l1 l2 fst_conv)
    with n show ?thesis by (simp only: classify_text_def if_False snd_conv)
  qed
  have v: "strip (replace (str ''Email:'') [] (str ''Name: Email: b'')) = str ''Name:  b''"
    by (simp add: str_def strip_def isspace_def replace_def)
  have i: "py_in (str ''Email:'') (str ''Name: Email: b'')" by (simp add: str_def)
  have d: "str ''a'' \<noteq> str ''Name:  b''" by (simp add: str_def)
  have m: "map_of (personal_info (snd (classify_text effects0
          (str ''Email: a'' @ [10] @ str ''Name: Email: b'')))) (str ''email'')
        = Some (str ''a'')"
    unfolding r by (simp add: resume_data0_def)
  from s i v m d show ?thesis by (intro conjI)
qed

theorem last_label_line_wins_witness:
  "split 10 (str ''Name: A'' @ [10] @ str ''Email: x'' @ [10] @ str ''Name: B'' @ [10]
       @ str ''Email: y'' @ [10] @ str ''end'')
     = [str ''Name: A'', str ''Email: x''] @ str ''Name: B'' # [str ''Email: y'', str ''end'']
   \<and> py_in (str ''Name:'') (str ''Name: B'')
   \<and> \<not> py_in (str ''Name:'') (str ''Email: y'') \<and> \<not> py_in (str ''Name:'') (str ''end'')
   \<and> map_of (personal_info (snd (classify_text effects0
        (str ''Name: A'' @ [10] @ str ''Email: x'' @ [10] @ str ''Name: B'' @ [10]
         @ str ''Email: y'' @ [10] @ str ''end''))))
        (str ''name'') = Some (str ''B'')
   \<and> split 10 (str ''Name: A'' @ [10] @ str ''Email: x'' @ [10] @ str ''Name: B'' @ [10]
       @ str ''Email: y'' @ [10] @ str ''end'')
     = [str ''Name: A'', str ''Email: x'', str ''Name: B''] @ str ''Email: y'' # [str ''end'']
   \<and> \<not> py_in (str ''Name:'') (str ''Email: y'') \<and> py_in (str ''Email:'') (str ''Email: y'')
   \<and> \<not> py_in (str ''Email:'') (str ''end'')
   \<and> map_of (personal_info (snd (classify_text effects0
        (str ''Name: A'' @ [10] @ str ''Email: x'' @ [10] @ str ''Name: B'' @ [10]
         @ str ''Email: y'' @ [10] @ str ''end''))))
        (str ''email'') = Some (str ''y'')"
proof -
  let ?text = "str ''Name: A'' @ [10] @ str ''Email: x'' @ [10] @ str ''Name: B'' @ [10]
       @ str ''Email: y'' @ [10] @ str ''end''"
  have n: "split 10 ?text
     = [str ''Name: A'', str ''Email: x''] @ str ''Name: B'' # [str ''Email: y'', str ''end'']"
    by (simp add: str_def)
  have e: "split 10 ?text
     = [str ''Name: A'', str ''Email: x'', str ''Name: B''] @ str ''Email: y'' # [str ''end'']"
    by (simp add: str_def)
  have v: "strip (replace (str ''Name:'') [] (str ''Name: B'')) = str ''B''"
    "strip (replace (str ''Email:'') [] (str ''Email: y'')) = str ''y''"
    by (simp_all add: str_def strip_def isspace_def replace_def)
  have l: "py_in (str ''Name:'') (str ''Name: B'')"
    "\<not> py_in (str ''Name:'') (str ''Email: y'')" "\<not> py_in (str ''Name:'') (str ''end'')"
    "py_in (str ''Email:'') (str ''Email: y'')" "\<not> py_in (str ''Email:'') (str ''end'')"
    by (simp_all add: str_def)
  from last_label_line_wins [OF n, of effects0] last_label_line_wins [OF e, of effects0]
    n e v l
  show ?thesis by simp
qed

section \<open>The lists only grow\<close>

lemma classify_line_education_list:
  "education (fst (classify_line st raw)) = education (fst st)
   \<or> education (fst (classify_line st raw)) = education (fst st) @ [strip raw]"
  by (simp add: classify_line_def Let_def)

lemma classify_line_work_list:
  "work_experience (fst (classify_line st raw)) = work_experience (fst st)
   \<or> work_experience (fst (classify_line st raw)) = work_experience (fst st) @ [strip raw]"
  by (simp add: classify_line_def Let_def)

lemma classify_line_skills_list:
  "skills (fst (classify_line st raw)) = skills (fst st)
   \<or> skills (fst (classify_line st raw)) = skills (fst st) @ [strip raw]"
  by (simp add: classify_line_def Let_def)

lemma scan_lines_education:
  "\<exists>new. education (fst (scan_lines st lines)) = education (fst st) @ new
     \<and> subseq new (map strip lines)"
proof (induction lines arbitrary: st)
  case Nil
  show ?case by (simp add: scan_lines_Nil)
next
  case (Cons l ls)
  from Cons [of "classify_line st l"] obtain new where
    new: "education (fst (scan_lines st (l # ls))) = education (fst (classify_line st l)) @ new"
      "subseq new (map strip ls)"
    by (auto simp: scan_lines_Cons)
  from classify_line_education_list [of st l] show ?case
  proof (elim disjE)
    assume "education (fst (classify_line st l)) = education (fst st)"
    with new show ?thesis by (auto intro: exI [of _ new])
  next
    assume "education (fst (classify_line st l)) = education (fst st) @ [strip l]"
    with new show ?thesis by (auto intro: exI [of _ "strip l # new"])
  qed
qed

lemma scan_lines_work_experience:
  "\<exists>new. work_experience (fst (scan_lines st lines)) = work_experience (fst st) @ new
     \<and> subseq new (map strip lines)"
proof (induction lines arbitrary: st)
  case Nil
  show ?case by (simp add: scan_lines_Nil)
next
  case (Cons l ls)
  from Cons [of "classify_line st l"] obtain new where
    new: "work_experience (fst (scan_lines st (l # ls)))
        = work_experience (fst (classify_line st l)) @ new"
      "subseq new (map strip ls)"
    by (auto simp: scan_lines_Cons)
  from classify_line_work_list [of st l] show ?case
  proof (elim disjE)
    assume "work_experience (fst (classify_line st l)) = work_experience (fst st)"
    with new show ?thesis by (auto intro: exI [of _ new])
  next
    assume "work_experience (fst (classify_line st l)) = work_experience (fst st) @ [strip l]"
    with new show ?thesis by (auto intro: exI [of _ "strip l # new"])
  qed
qed

lemma scan_lines_skills:
  "\<exists>new. skills (fst (scan_lines st lines)) = skills (fst st) @ new
     \<and> subseq new (map strip lines)"
proof (induction lines arbitrary: st)
  case Nil
  show ?case by (simp add: scan_lines_Nil)
next
  case (Cons l ls)
  from Cons [of "classify_line st l"] obtain new where
    new: "skills (fst (scan_lines st (l # ls))) = skills (fst (classify_line st l)) @ new"
      "subseq new (map strip ls)"
    by (auto simp: scan_lines_Cons)
  from classify_line_skills_list [of st l] show ?case
  proof (elim disjE)
    assume "skills (fst (classify_line st l)) = skills (fst st)"
    with new show ?thesis by (auto intro: exI [of _ new])
  next
    assume "skills (fst (classify_line st l)) = skills (fst st) @ [strip l]"
    with new show ?thesis by (auto intro: exI [of _ "strip l # new"])
  qed
qed

lemma scan_lines_grow:
  "prefix (education (fst (scan_lines st xs))) (education (fst (scan_lines st (xs @ ys))))"
  "prefix (work_experience (fst (scan_lines st xs)))
     (work_experience (fst (scan_lines st (xs @ ys))))"
  "prefix (skills (fst (scan_lines st xs))) (skills (fst (scan_lines st (xs @ ys))))"
  using scan_lines_education [of "scan_lines st xs" ys]
    scan_lines_work_experience [of "scan_lines st xs" ys]
    scan_lines_skills [of "scan_lines st xs" ys]
  by (auto simp: scan_lines_append)

lemma classify_text_document_order:
  "subseq (education (snd (classify_text fx text))) (map strip (split 10 text))"
  "subseq (work_experience (snd (classify_text fx text))) (map strip (split 10 text))"
  "subseq (skills (snd (classify_text fx text))) (map strip (split 10 text))"
  using scan_lines_education [of "(resume_data0, None)" "split 10 text"]
    scan_lines_work_experience [of "(resume_data0, None)" "split 10 text"]
    scan_lines_skills [of "(resume_data0, None)" "split 10 text"]
  by (auto simp: classify_text_def resume_data0_def)

text \<open>
  Claim C4. The record the classifier returns has its four fields for every text, all of
  them empty for the empty text. A line leaves each list as it was or appends to it, so
  the lists after any part of the scan are prefixes of the lists after a longer part:
  nothing appended is removed. The lists of the result are subsequences of the trimmed
  lines, which is document order.
\<close>

theorem fields_present_lists_grow:
  "(\<exists>info edu work skl. snd (classify_text fx text)
       = \<lparr>personal_info = info, education = edu, work_experience = work, skills = skl\<rparr>)
   \<and> snd (classify_text fx []) 
       = \<lparr>personal_info = [], education = [], work_experience = [], skills = []\<rparr>
   \<and> prefix (education (fst st)) (education (fst (classify_line st raw)))
   \<and> prefix (work_experience (fst st)) (work_experience (fst (classify_line st raw)))
   \<and> prefix (skills (fst st)) (skills (fst (classify_line st raw)))
   \<and> prefix (education (fst (scan_lines st xs))) (education (fst (scan_lines st (xs @ ys))))
   \<and> prefix (work_experience (fst (scan_lines st xs)))
        (work_experience (fst (scan_lines st (xs @ ys))))
   \<and> prefix (skills (fst (scan_lines st xs))) (skills (fst (scan_lines st (xs @ ys))))
   \<and> subseq (education (snd (classify_text fx text))) (map strip (split 10 text))
   \<and> subseq (work_experience (snd (classify_text fx text))) (map strip (split 10 text))
   \<and> subseq (skills (snd (classify_text fx text))) (map strip (split 10 text))"
proof -
  have present: "\<exists>info edu work skl. snd (classify_text fx text)
       = \<lparr>personal_info = info, education = edu, work_experience = work, skills = skl\<rparr>"
    by (cases "snd (classify_text fx text)") auto
  have initial: "snd (classify_text fx [])
       = \<lparr>personal_info = [], education = [], work_experience = [], skills = []\<rparr>"
    by (simp add: classify_text_def resume_data0_def)
  have one: "prefix (education (fst st)) (education (fst (classify_line st raw)))"
    "prefix (work_experience (fst st)) (work_experience (fst (classify_line st raw)))"
    "prefix (skills (fst st)) (skills (fst (classify_line st raw)))"
    using classify_line_education_list [of st raw] classify_line_work_list [of st raw]
      classify_line_skills_list [of st raw] by auto
  from present initial one scan_lines_grow [of st xs ys] classify_text_document_order [of fx "text"]
  show ?thesis by blast
qed

section \<open>The whole run\<close>

lemma join_Nil_iff:
  "join sep xs = [] \<longleftrightarrow>
     xs = [] \<or> xs = [[]] \<or> (sep = [] \<and> (\<forall>x\<in>set xs. x = []))"
  by (induction sep xs rule: join.induct) auto

lemma extract_text_empty_iff:
  "extract_text pages = [] \<longleftrightarrow> (\<forall>p\<in>set pages. p = None \<or> p = Some [])"
proof -
  let ?keep = "\<lambda>p. case p of None \<Rightarrow> None | Some t \<Rightarrow> if t = [] then None else Some t"
  have nonempty: "\<forall>x\<in>set (List.map_filter ?keep pages). x \<noteq> []"
    by (auto simp: List.map_filter_def split: option.splits if_splits)
  have "extract_text pages = [] \<longleftrightarrow> List.map_filter ?keep pages = []"
    using nonempty by (auto simp: extract_text_def join_Nil_iff)
  also have "\<dots> \<longleftrightarrow> (\<forall>p\<in>set pages. p = None \<or> p = Some [])"
    by (induction pages) (auto simp: List.map_filter_simps split: option.splits)
  finally show ?thesis .
qed

text \<open>
  Claim C3. On an empty text the classifier returns the initial record, whose four fields
  are empty, and logs the warning; that branch does not split the text or scan a line, and
  the warning is logged on that branch only. The extracted text is empty exactly when
  every page gives \<open>None\<close> or the empty string (\<open>extract_text_empty_iff\<close>), and then
  \<open>parse_pdf_resume\<close> returns the initial record.
\<close>

theorem empty_text_early_return:
  "classify_text fx [] =
     (fx\<lparr>log := log fx @ [WARNING (str ''No text extracted from the resume.'')]\<rparr>,
      resume_data0)
   \<and> resume_data0 = \<lparr>personal_info = [], education = [], work_experience = [], skills = []\<rparr>
   \<and> (text \<noteq> [] \<longrightarrow> fst (classify_text fx text) = fx)
   \<and> (pdf_pages e file_path = Inr pages \<and> (\<forall>p\<in>set pages. p = None \<or> p = Some []) \<longrightarrow>
        parse_pdf_resume e fx file_path =
          (fx\<lparr>pdf_opened := pdf_opened fx @ [file_path],
              log := log fx @ [WARNING (str ''No text extracted from the resume.'')]\<rparr>,
           Inr resume_data0))"
  by (auto simp: classify_text_def resume_data0_def parse_pdf_resume_def
      extract_text_empty_iff [THEN iffD2])

theorem empty_text_early_return_witness:
  "pdf_pages env_example (str ''cv.pdf'') = Inr [None, Some []]
   \<and> parse_pdf_resume env_example effects0 (str ''cv.pdf'') =
        (\<lparr>log = [WARNING (str ''No text extracted from the resume.'')], stdout = [],
          pdf_opened = [str ''cv.pdf''], written = []\<rparr>, Inr resume_data0)
   \<and> str ''Skills'' \<noteq> []
   \<and> fst (classify_text effects0 (str ''Skills'')) = effects0"
proof -
  have p: "pdf_pages env_example (str ''cv.pdf'') = Inr [None, Some []]"
    by (simp add: env_example_def)
  have n: "str ''Skills'' \<noteq> []" by (simp add: str_def)
  from empty_text_early_return [of effects0 "str ''Skills''" env_example "str ''cv.pdf''" "[None, Some []]"]
    p n
  show ?thesis by (simp add: effects0_def)
qed

text \<open>
  Claim C5. When the input path is not a file, \<open>main\<close> logs one error and returns:
  no exception leaves it, no PDF is opened, nothing is printed and no file is written.
\<close>

theorem missing_input_file:
  "\<not> isfile e file_path \<Longrightarrow>
     main e fx file_path output_file =
       (fx\<lparr>log := log fx @ [ERROR (str ''The provided file path does not exist.'')]\<rparr>, None)
   \<and> snd (main e fx file_path output_file) = None
   \<and> pdf_opened (fst (main e fx file_path output_file)) = pdf_opened fx
   \<and> written (fst (main e fx file_path output_file)) = written fx
   \<and> stdout (fst (main e fx file_path output_file)) = stdout fx"
  by (simp add: main_def)

theorem missing_input_file_witness:
  "\<not> isfile env_example (str ''other.pdf'')
   \<and> main env_example effects0 (str ''other.pdf'') (str ''out.json'') =
       (\<lparr>log = [ERROR (str ''The provided file path does not exist.'')], stdout = [],
         pdf_opened = [], written = []\<rparr>, None)"
proof -
  have h: "\<not> isfile env_example (str ''other.pdf'')" by (simp add: env_example_def str_def)
  from missing_input_file [OF h, of effects0 "str ''out.json''"] h
  show ?thesis by (simp add: effects0_def)
qed

lemma classify_text_record:
  "snd (classify_text fx text) =
     (if text = [] then resume_data0
      else fst (scan_lines (resume_data0, None) (split 10 text)))"
  by (simp add: classify_text_def)

lemma parse_pdf_resume_result:
  "snd (parse_pdf_resume e fx file_path) =
     (case pdf_pages e file_path of
        Inl x \<Rightarrow> Inl x
      | Inr pages \<Rightarrow> Inr (snd (classify_text effects0 (extract_text pages))))"
  by (simp add: parse_pdf_resume_def classify_text_record case_prod_beta Let_def
      split: sum.splits)

text \<open>
  Claim C6. The record returned for a text does not depend on what earlier runs left
  behind: it is the same from any two states of the outside, and a second run started
  from the state the first run left returns the record the first run returned. The same
  holds for \<open>parse_pdf_resume\<close> on the same PDF.
\<close>

theorem classifier_deterministic:
  "snd (classify_text fx text) = snd (classify_text fx' text)
   \<and> (case classify_text fx text of (fx1, first) \<Rightarrow>
        case classify_text fx1 text of (fx2, second) \<Rightarrow> second = first)
   \<and> (case parse_pdf_resume e fx file_path of (fx1, first) \<Rightarrow>
        case parse_pdf_resume e fx1 file_path of (fx2, second) \<Rightarrow> second = first)"
  by (simp add: case_prod_beta classify_text_record parse_pdf_resume_result)

end
